theory Spec2Isabelle
  imports
    Complex_Main
    "HOL-Library.Multiset"
    "HOL-Library.Char_ord"
    "HOL-Library.List_Lexorder"
begin

section \<open>Data model: the fire detection table\<close>

text \<open>
  The script \<^verbatim>\<open>fires.py\<close> passes one pandas DataFrame through four stages. A DataFrame
  is modelled as its column names and its rows in index order; a row holds one cell per
  column, in column order. A cell read by \<^verbatim>\<open>read_csv\<close> is a number, a string or a
  missing value (pandas' NaN). Numbers are rationals: only their order and equality are
  used here, and these agree with the order of the finite floating point values. Each
  column has a dtype, listed in column order as \<^verbatim>\<open>df.dtypes\<close> lists them: numeric, or
  \<^verbatim>\<open>object\<close> for a column of strings and for a column that \<^verbatim>\<open>read_csv\<close> found without a
  value. Selecting and reordering rows keeps the dtypes, also when no row is left.
\<close>

datatype cell = NaN | Num rat | Str string

type_synonym row = "cell list"

datatype dtype = Numeric | Object

record table =
  columns :: "string list"
  rows :: "row list"
  dtypes :: "dtype list"

datatype error = Exception string | TypeError | ValueError

definition get_cell :: "table \<Rightarrow> row \<Rightarrow> string \<Rightarrow> cell option" where
  \<comment> \<open>the cell of a row under a column label; None when the table has no such column\<close>
  "get_cell df r c = map_of (zip (columns df) r) c"

definition column :: "table \<Rightarrow> string \<Rightarrow> cell list" where
  \<comment> \<open>\<^verbatim>\<open>df[c]\<close> for a column that exists\<close>
  "column df c = map (\<lambda>r. case get_cell df r c of Some v \<Rightarrow> v | None \<Rightarrow> NaN) (rows df)"

definition object_dtype :: "table \<Rightarrow> string \<Rightarrow> bool" where
  \<comment> \<open>\<^verbatim>\<open>df[c].dtype\<close> is \<^verbatim>\<open>object\<close>\<close>
  "object_dtype df c = (map_of (zip (columns df) (dtypes df)) c = Some Object)"

definition empty :: "table \<Rightarrow> bool" where
  \<comment> \<open>\<^verbatim>\<open>df.empty\<close>: some axis has length 0\<close>
  "empty df = (rows df = [] \<or> columns df = [])"

definition boolean_index :: "table \<Rightarrow> bool list \<Rightarrow> table" where
  \<comment> \<open>\<^verbatim>\<open>df[mask]\<close>: the rows whose mask entry is True, in index order\<close>
  "boolean_index df msk = df\<lparr>rows := map fst (filter snd (zip (rows df) msk))\<rparr>"

section \<open>Fetcher\<close>

record date =
  year :: nat
  month :: nat
  day :: nat

definition digit :: "nat \<Rightarrow> char" where
  "digit n = ''0123456789'' ! (n mod 10)"

definition strftime_ymd :: "date \<Rightarrow> string" where
  \<comment> \<open>\<^verbatim>\<open>today.strftime("%Y-%m-%d")\<close>, for the four-digit years \<^verbatim>\<open>datetime.now()\<close> returns\<close>
  "strftime_ymd d =
     [digit (year d div 1000), digit (year d div 100), digit (year d div 10), digit (year d)]
     @ ''-'' @ [digit (month d div 10), digit (month d)]
     @ ''-'' @ [digit (day d div 10), digit (day d)]"

definition base_url :: string where
  "base_url = ''https://firms.modaps.eosdis.nasa.gov/data/active_fire''"

definition sources :: "(string \<times> string) list" where
  \<comment> \<open>the dict literal, in insertion order (the order \<^verbatim>\<open>items()\<close> iterates in)\<close>
  "sources = [(''modis'', ''modis-c6.1''), (''viirs'', ''viirs-snpp''),
              (''viirs_noaa20'', ''viirs-noaa20'')]"

definition build_url :: "string \<Rightarrow> string" where
  \<comment> \<open>\<^verbatim>\<open>f"{base_url}/{source_path}/txt/MODIS_C6_1_Global_24h.csv"\<close>\<close>
  "build_url source_path = base_url @ ''/'' @ source_path @ ''/txt/MODIS_C6_1_Global_24h.csv''"

definition filter_today :: "string \<Rightarrow> table \<Rightarrow> table" where
  \<comment> \<open>\<^verbatim>\<open>df[df['acq_date'] == today_str]\<close>: the comparison is elementwise, and a cell
      that is not a string is unequal to the string\<close>
  "filter_today today_str df =
     boolean_index df (map (\<lambda>v. v = Str today_str) (column df ''acq_date''))"

text \<open>
  The loop over the sources. \<open>http url\<close> is what \<^verbatim>\<open>requests.get\<close>, \<^verbatim>\<open>raise_for_status\<close>
  and \<^verbatim>\<open>read_csv\<close> make of one URL: the parsed table, or the exception one of them
  raised. Every exception is caught by the loop's \<^verbatim>\<open>except Exception\<close> and the next
  source is tried; after the last source the function raises. Each source has a URL of
  its own and is requested once, so a function of the URL describes the network.
\<close>

fun try_sources ::
  "(string \<Rightarrow> error + table) \<Rightarrow> string \<Rightarrow> (string \<times> string) list \<Rightarrow> error + (table \<times> string)"
where
  "try_sources http today_str [] = Inl (Exception ''Failed to download fire data from all sources'')"
| "try_sources http today_str ((source_name, source_path) # rest) =
     (case http (build_url source_path) of
        Inl e \<Rightarrow> try_sources http today_str rest
      | Inr df \<Rightarrow>
          if \<not> empty df then
            if ''acq_date'' \<in> set (columns df) then
              let df_today = filter_today today_str df in
              if \<not> empty df_today then Inr (df_today, source_name)
              else try_sources http today_str rest
            else try_sources http today_str rest
          else try_sources http today_str rest)"

definition get_latest_fire_data ::
  "(string \<Rightarrow> error + table) \<Rightarrow> date \<Rightarrow> error + (table \<times> string)" where
  "get_latest_fire_data http today = try_sources http (strftime_ymd today) sources"

section \<open>The order of cells, and sorting by a column\<close>

text \<open>
  Cells of one column are compared as Python compares them: numbers by value, strings
  lexicographically by code point. A missing value is placed below every other cell, so
  that "descending, missing values last" (pandas' \<^verbatim>\<open>na_position='last'\<close>) is plain
  descending order. A column read by \<^verbatim>\<open>read_csv\<close> has one dtype, so a number is never
  compared with a string; the order puts numbers first only to be total.
\<close>

instantiation cell :: linorder
begin

fun less_eq_cell :: "cell \<Rightarrow> cell \<Rightarrow> bool" where
  "less_eq_cell NaN _ = True"
| "less_eq_cell (Num a) NaN = False"
| "less_eq_cell (Num a) (Num b) = (a \<le> b)"
| "less_eq_cell (Num a) (Str t) = True"
| "less_eq_cell (Str s) (Str t) = (s \<le> t)"
| "less_eq_cell (Str s) _ = False"

definition less_cell :: "cell \<Rightarrow> cell \<Rightarrow> bool" where
  "less_cell a b = (a \<le> b \<and> \<not> b \<le> a)"

instance
proof
  fix x y z :: cell
  show "(x < y) = (x \<le> y \<and> \<not> y \<le> x)"
    by (simp add: less_cell_def)
  show "x \<le> x"
    by (cases x) simp_all
  show "x \<le> y \<Longrightarrow> y \<le> z \<Longrightarrow> x \<le> z"
    by (cases x; cases y; cases z) simp_all
  show "x \<le> y \<Longrightarrow> y \<le> x \<Longrightarrow> x = y"
    by (cases x; cases y) simp_all
  show "x \<le> y \<or> y \<le> x"
    by (cases x; cases y) auto
qed

end

type_synonym argsort = "cell list \<Rightarrow> nat list"

text \<open>
  \<^verbatim>\<open>df.sort_values(by, ascending=False)\<close> is pandas' \<^verbatim>\<open>take\<close> of the indexer that
  \<^verbatim>\<open>nargsort\<close> computes: the missing values are set aside, the other keys and their
  positions are reversed, numpy's \<^verbatim>\<open>argsort\<close> sorts them ascending, the result is
  reversed again and the positions of the missing values are appended. The script passes
  no \<^verbatim>\<open>kind\<close>, so numpy sorts with its default kind (\<^verbatim>\<open>quicksort\<close>); that function is
  the parameter \<open>argsort\<close>, and \<open>argsort_ok\<close> is what numpy promises of every kind: the
  result lists each position once, and the keys read in that order ascend.
\<close>

definition argsort_ok :: "argsort \<Rightarrow> bool" where
  "argsort_ok argsort =
     (\<forall>ks. mset (argsort ks) = mset [0..<length ks] \<and> sorted (map (\<lambda>i. ks ! i) (argsort ks)))"

definition nargsort_desc :: "argsort \<Rightarrow> cell list \<Rightarrow> nat list" where
  "nargsort_desc argsort items =
     (let idx = [0..<length items];
          non_nan_idx = rev (filter (\<lambda>i. items ! i \<noteq> NaN) idx);
          nan_idx = filter (\<lambda>i. items ! i = NaN) idx;
          non_nans = map (\<lambda>i. items ! i) non_nan_idx;
          indexer = map (\<lambda>j. non_nan_idx ! j) (argsort non_nans)
      in rev indexer @ nan_idx)"

definition take_rows :: "table \<Rightarrow> nat list \<Rightarrow> table" where
  \<comment> \<open>\<^verbatim>\<open>df.take(indexer)\<close>\<close>
  "take_rows df indexer = df\<lparr>rows := map (\<lambda>i. rows df ! i) indexer\<rparr>"

definition sort_values_desc :: "argsort \<Rightarrow> table \<Rightarrow> string \<Rightarrow> table" where
  "sort_values_desc argsort df by = take_rows df (nargsort_desc argsort (column df by))"

definition head :: "nat \<Rightarrow> table \<Rightarrow> table" where
  "head n df = df\<lparr>rows := take n (rows df)\<rparr>"

text \<open>Two sorts that numpy's promise admits: its stable kind, and one that lists equal
  keys from the last position to the first.\<close>

definition argsort_stable :: argsort where
  "argsort_stable ks = sort_key (\<lambda>i. ks ! i) [0..<length ks]"

definition argsort_ties_reversed :: argsort where
  "argsort_ties_reversed ks = sort_key (\<lambda>i. ks ! i) (rev [0..<length ks])"

section \<open>The file system\<close>

text \<open>
  Files are regular files, each named by one path; a directory is the set of paths below
  it, so \<^verbatim>\<open>os.makedirs(output_dir, exist_ok=True)\<close> changes nothing. A CSV file written by
  \<^verbatim>\<open>to_csv(path, index=False)\<close> holds the column names and the rows in order. The
  operating system is taken to carry out each file operation the script asks for: a
  directory that cannot be created or a disk that is full is not part of the model.
\<close>

datatype file_content = Csv table | Other string

type_synonym filesystem = "string \<rightharpoonup> file_content"

definition path_join :: "string \<Rightarrow> string \<Rightarrow> string" where
  \<comment> \<open>\<^verbatim>\<open>os.path.join(a, b)\<close> (posixpath)\<close>
  "path_join a b =
     (if b \<noteq> [] \<and> hd b = CHR ''/'' then b
      else if a = [] \<or> last a = CHR ''/'' then a @ b
      else a @ ''/'' @ b)"

definition has_magic :: "string \<Rightarrow> bool" where
  \<comment> \<open>\<^verbatim>\<open>glob.has_magic\<close>: the wildcard characters of a glob pattern\<close>
  "has_magic s = (\<exists>c \<in> set s. c \<in> set ''*?['')"

definition fnmatch_snapshot :: "string \<Rightarrow> bool" where
  \<comment> \<open>a file name matches \<^verbatim>\<open>fire_snapshot*.csv\<close>\<close>
  "fnmatch_snapshot name =
     (17 \<le> length name \<and> take 13 name = ''fire_snapshot'' \<and> drop (length name - 4) name = ''.csv'')"

text \<open>
  \<^verbatim>\<open>glob.glob\<close> reads the whole path it is given as a pattern, the directory part too. A
  component of the directory part with a wildcard character is matched against the
  names of the directories there by \<^verbatim>\<open>fnmatch\<close>: \<^verbatim>\<open>*\<close> stands for any characters,
  \<^verbatim>\<open>?\<close> for one, \<^verbatim>\<open>[seq]\<close> for one character of the set and \<^verbatim>\<open>[!seq]\<close> for one
  outside it; a \<^verbatim>\<open>[\<close> that no \<^verbatim>\<open>]\<close> closes stands for itself. \<open>translate\<close> follows
  \<^verbatim>\<open>fnmatch.translate\<close>: \<open>bracket_end\<close> finds the closing bracket, \<open>chunks\<close> cuts a set at
  the hyphens that make ranges, \<open>merge_ranges\<close> drops the ranges that run backwards.
\<close>

datatype tok = Star | AnyChar | Lit char | CharSet string

definition bracket_end :: "string \<Rightarrow> nat option" where
  \<comment> \<open>the position of the \<^verbatim>\<open>]\<close> that closes a set, in the pattern after its \<^verbatim>\<open>[\<close>; a
      \<^verbatim>\<open>]\<close> right after the \<^verbatim>\<open>[\<close> or after \<^verbatim>\<open>[!\<close> belongs to the set\<close>
  "bracket_end pat =
     (let j0 = (if pat \<noteq> [] \<and> hd pat = CHR ''!'' then 1 else 0);
          j1 = (if j0 < length pat \<and> pat ! j0 = CHR '']'' then j0 + 1 else j0);
          j = j1 + length (takeWhile (\<lambda>c. c \<noteq> CHR '']'') (drop j1 pat))
      in if j < length pat then Some j else None)"

function translate :: "string \<Rightarrow> tok list" where
  "translate [] = []"
| "translate (c # pat) =
     (if c = CHR ''*'' then Star # translate pat
      else if c = CHR ''?'' then AnyChar # translate pat
      else if c = CHR ''['' then
        (case bracket_end pat of
           None \<Rightarrow> Lit c # translate pat
         | Some j \<Rightarrow> CharSet (take j pat) # translate (drop (Suc j) pat))
      else Lit c # translate pat)"
  by pat_completeness auto
termination
  by (relation "measure length") auto

function chunks :: "nat \<Rightarrow> string \<Rightarrow> string list" where
  \<comment> \<open>the set is cut at each hyphen found from position \<open>skip\<close> on; after a cut the next
      hyphen is looked for two characters further; a hyphen at the end stays in the
      last chunk\<close>
  "chunks skip s =
     (let rest = dropWhile (\<lambda>c. c \<noteq> CHR ''-'') (drop skip s);
          chunk = take (length s - length rest) s
      in if rest = [] then [s]
         else if tl rest = [] then [chunk @ ''-'']
         else chunk # chunks 2 (tl rest))"
  by pat_completeness auto
termination
proof (relation "measure (\<lambda>(skip, s). length s)")
  show "wf (measure (\<lambda>(skip, s). length s))" by simp
next
  fix skip :: nat and s rest :: string
  assume r: "rest = dropWhile (\<lambda>c. c \<noteq> CHR ''-'') (drop skip s)" and ne: "rest \<noteq> []"
  have "length rest \<le> length (drop skip s)"
    unfolding r by (rule length_dropWhile_le)
  then have "length (tl rest) < length s" using ne by (cases rest) auto
  then show "((2, tl rest), (skip, s)) \<in> measure (\<lambda>(skip, s). length s)" by simp
qed

fun merge_ranges :: "string list \<Rightarrow> string list" where
  \<comment> \<open>from the right: where a chunk ends above the start of the next one, the two
      end points go and the chunks are joined\<close>
  "merge_ranges [] = []"
| "merge_ranges [a] = [a]"
| "merge_ranges (a # rest) =
     (case merge_ranges rest of
        [] \<Rightarrow> [a]
      | b # bs \<Rightarrow>
          if a \<noteq> [] \<and> b \<noteq> [] \<and> hd b < last a then (butlast a @ tl b) # bs
          else a # b # bs)"

fun in_ranges :: "string list \<Rightarrow> char \<Rightarrow> bool" where
  \<comment> \<open>the character lies between the end of a chunk and the start of the next\<close>
  "in_ranges (a # b # cs) c =
     ((a \<noteq> [] \<and> b \<noteq> [] \<and> last a \<le> c \<and> c \<le> hd b) \<or> in_ranges (b # cs) c)"
| "in_ranges cs c = False"

definition in_set :: "string \<Rightarrow> char \<Rightarrow> bool" where
  "in_set stuff c =
     (let cs = (if CHR ''-'' \<in> set stuff
                then merge_ranges (chunks (if stuff \<noteq> [] \<and> hd stuff = CHR ''!'' then 2 else 1) stuff)
                else [stuff]);
          neg = (cs \<noteq> [] \<and> hd cs \<noteq> [] \<and> hd (hd cs) = CHR ''!'');
          cs' = (if neg then tl (hd cs) # tl cs else cs);
          member = ((\<exists>ch \<in> set cs'. c \<in> set ch) \<or> in_ranges cs' c)
      in if neg then \<not> member else member)"

fun tmatch :: "tok list \<Rightarrow> string \<Rightarrow> bool" where
  "tmatch [] s = (s = [])"
| "tmatch (Lit c # ts) [] = False"
| "tmatch (Lit c # ts) (x # xs) = (x = c \<and> tmatch ts xs)"
| "tmatch (AnyChar # ts) [] = False"
| "tmatch (AnyChar # ts) (x # xs) = tmatch ts xs"
| "tmatch (CharSet stuff # ts) [] = False"
| "tmatch (CharSet stuff # ts) (x # xs) = (in_set stuff x \<and> tmatch ts xs)"
| "tmatch (Star # ts) [] = tmatch ts []"
| "tmatch (Star # ts) (x # xs) = (tmatch ts (x # xs) \<or> tmatch (Star # ts) xs)"

definition fnmatch :: "string \<Rightarrow> string \<Rightarrow> bool" where
  \<comment> \<open>\<^verbatim>\<open>fnmatch.fnmatchcase(name, pat)\<close>\<close>
  "fnmatch name pat = tmatch (translate pat) name"

fun split_sep :: "string \<Rightarrow> string list" where
  \<comment> \<open>\<^verbatim>\<open>s.split('/')\<close>\<close>
  "split_sep [] = [[]]"
| "split_sep (c # cs) =
     (if c = CHR ''/'' then [] # split_sep cs
      else (case split_sep cs of [] \<Rightarrow> [[c]] | x # xs \<Rightarrow> (c # x) # xs))"

definition rstrip_sep :: "string \<Rightarrow> string" where
  \<comment> \<open>the head that \<^verbatim>\<open>os.path.split\<close> returns: trailing slashes go, unless it is
      slashes only\<close>
  "rstrip_sep h =
     (if set h \<subseteq> {CHR ''/''} then h else rev (dropWhile (\<lambda>c. c = CHR ''/'') (rev h)))"

definition comp_match :: "string \<Rightarrow> string \<Rightarrow> bool" where
  \<comment> \<open>a directory name is listed for a component of the pattern: a component without
      wildcard is that name; one with a wildcard is matched by \<^verbatim>\<open>fnmatch\<close>, and a name
      that starts with a dot only when the component does\<close>
  "comp_match pc name =
     (if has_magic pc then
        name \<noteq> [] \<and> name \<noteq> ''.'' \<and> name \<noteq> ''..''
        \<and> (if hd name = CHR ''.'' then hd pc = CHR ''.'' else True)
        \<and> fnmatch name pc
      else name = pc)"

definition glob_match :: "string \<Rightarrow> string \<Rightarrow> bool" where
  \<comment> \<open>the path is one that \<^verbatim>\<open>glob.glob(os.path.join(output_dir, "fire_snapshot*.csv"))\<close>
      returns. A directory name without wildcard characters is taken as it is: the
      files of that directory whose name matches. Otherwise the components from the
      first wildcard on are patterns: the files whose name matches, in the directories
      that match component by component below the part before.\<close>
  "glob_match output_dir p =
     (let dirname = rstrip_sep (path_join output_dir []) in
      if \<not> has_magic dirname then
        (let d = path_join dirname []; name = drop (length d) p
         in take (length d) p = d \<and> CHR ''/'' \<notin> set name \<and> fnmatch_snapshot name)
      else
        (let comps = split_sep dirname;
             lit = takeWhile (\<lambda>c. \<not> has_magic c) comps;
             head = rstrip_sep (take (length (concat (map (\<lambda>c. c @ ''/'') lit))) dirname);
             pats = filter (\<lambda>c. c \<noteq> []) (drop (length lit) comps);
             d = path_join head [];
             names = split_sep (drop (length d) p)
         in take (length d) p = d \<and> length names = Suc (length pats)
            \<and> list_all2 comp_match pats (butlast names) \<and> fnmatch_snapshot (last names)))"

section \<open>Loader\<close>

text \<open>
  \<open>tmp_name fs\<close> is the name \<^verbatim>\<open>NamedTemporaryFile(suffix='.csv', delete=False)\<close> picks,
  and \<open>from_source path fs\<close> is what earthkit's \<^verbatim>\<open>ek.from_source("file", path)\<close> makes of
  the file: a handle, or the exception it raised. The \<^verbatim>\<open>finally\<close> clause unlinks the
  file on both paths; an exception passes through it to the caller.
\<close>

definition process_fire_data_with_earthkit ::
  "(filesystem \<Rightarrow> string) \<Rightarrow> (string \<Rightarrow> filesystem \<Rightarrow> error + 'd) \<Rightarrow> table \<Rightarrow> string
     \<Rightarrow> filesystem \<Rightarrow> (error + ('d \<times> table)) \<times> filesystem" where
  "process_fire_data_with_earthkit tmp_name from_source df source_name fs =
     (let tmp_path = tmp_name fs;
          fs1 = fs(tmp_path \<mapsto> Csv df)
      in case from_source tmp_path fs1 of
           Inl e \<Rightarrow> (Inl e, fs1(tmp_path := None))
         | Inr data \<Rightarrow> (Inr (data, df), fs1(tmp_path := None)))"

section \<open>Writer\<close>

definition save_fire_data ::
  "argsort \<Rightarrow> table \<Rightarrow> string \<Rightarrow> string \<Rightarrow> filesystem \<Rightarrow> (string \<times> string) list \<times> filesystem" where
  "save_fire_data argsort df source_name output_dir fs =
     (let fs1 = fs |` {p. \<not> glob_match output_dir p};
          df_sorted = (if ''frp'' \<in> set (columns df) then sort_values_desc argsort df ''frp'' else df);
          csv_file = path_join output_dir ''fire_snapshot.csv''
      in ([(''csv'', csv_file)], fs1(csv_file \<mapsto> Csv df_sorted)))"

section \<open>Analyzer\<close>

text \<open>
  What the analyzer prints is kept as a list of lines, each with the values it shows.
  Where Python raises, the analyzer returns the exception: a statistic of strings
  (\<^verbatim>\<open>mean\<close>, \<^verbatim>\<open>> 80\<close>) is a TypeError, \<^verbatim>\<open>nlargest\<close> on a column of object dtype is a
  TypeError, and the format \<^verbatim>\<open>:.2f\<close> applied to a string is a ValueError.
\<close>

datatype field = Val cell | Placeholder

datatype line =
    Banner
  | Total nat
  | AvgConfidence "rat option"
  | HighConfidence nat
  | LatRange "rat option" "rat option"
  | LonRange "rat option" "rat option"
  | DailyHeader
  | DailyCount cell nat
  | RecentHeader
  | RecentFire field field "rat option" "rat option"

definition has_str :: "cell list \<Rightarrow> bool" where
  "has_str xs = (\<exists>v \<in> set xs. case v of Str _ \<Rightarrow> True | _ \<Rightarrow> False)"

definition nums :: "cell list \<Rightarrow> rat list" where
  \<comment> \<open>the numbers of a column; pandas' statistics skip missing values\<close>
  "nums xs = concat (map (\<lambda>v. case v of Num q \<Rightarrow> [q] | _ \<Rightarrow> []) xs)"

definition mean :: "cell list \<Rightarrow> rat option" where
  \<comment> \<open>None is the float nan, the mean of no value\<close>
  "mean xs = (if nums xs = [] then None else Some (sum_list (nums xs) / of_nat (length (nums xs))))"

definition col_min :: "cell list \<Rightarrow> rat option" where
  "col_min xs = (case nums xs of [] \<Rightarrow> None | q # qs \<Rightarrow> Some (fold min qs q))"

definition col_max :: "cell list \<Rightarrow> rat option" where
  "col_max xs = (case nums xs of [] \<Rightarrow> None | q # qs \<Rightarrow> Some (fold max qs q))"

definition confidence_section :: "table \<Rightarrow> error + line list" where
  "confidence_section df =
     (if ''confidence'' \<in> set (columns df) then
        if has_str (column df ''confidence'') then Inl TypeError
        else Inr [AvgConfidence (mean (column df ''confidence'')),
                  HighConfidence (length (filter (\<lambda>v. case v of Num q \<Rightarrow> 80 < q | _ \<Rightarrow> False)
                                            (column df ''confidence'')))]
      else Inr [])"

definition lat_lon_section :: "table \<Rightarrow> error + line list" where
  "lat_lon_section df =
     (if ''latitude'' \<in> set (columns df) \<and> ''longitude'' \<in> set (columns df) then
        if has_str (column df ''latitude'') \<or> has_str (column df ''longitude'') then Inl ValueError
        else Inr [LatRange (col_min (column df ''latitude'')) (col_max (column df ''latitude'')),
                  LonRange (col_min (column df ''longitude'')) (col_max (column df ''longitude''))]
      else Inr [])"

definition daily_section :: "table \<Rightarrow> line list" where
  \<comment> \<open>\<^verbatim>\<open>df['acq_date'].value_counts().sort_index()\<close>: each date that occurs, ascending,
      with the number of its rows\<close>
  "daily_section df =
     (if ''acq_date'' \<in> set (columns df) then
        DailyHeader #
        map (\<lambda>d. DailyCount d (count_list (column df ''acq_date'') d))
            (sort (remdups (filter (\<lambda>v. v \<noteq> NaN) (column df ''acq_date''))))
      else [])"

definition series_get :: "table \<Rightarrow> row \<Rightarrow> string \<Rightarrow> field" where
  \<comment> \<open>\<^verbatim>\<open>fire.get(c, 'N/A')\<close>\<close>
  "series_get df fire c = (case get_cell df fire c of Some v \<Rightarrow> Val v | None \<Rightarrow> Placeholder)"

fun format_2f :: "field \<Rightarrow> error + rat option" where
  \<comment> \<open>the format spec \<^verbatim>\<open>:.2f\<close>: defined on numbers (nan included), not on strings\<close>
  "format_2f (Val (Num q)) = Inr (Some q)"
| "format_2f (Val NaN) = Inr None"
| "format_2f (Val (Str s)) = Inl ValueError"
| "format_2f Placeholder = Inl ValueError"

definition print_fire :: "table \<Rightarrow> row \<Rightarrow> error + line" where
  "print_fire df fire =
     (case format_2f (series_get df fire ''latitude'') of
        Inl e \<Rightarrow> Inl e
      | Inr lat \<Rightarrow>
          (case format_2f (series_get df fire ''longitude'') of
             Inl e \<Rightarrow> Inl e
           | Inr lon \<Rightarrow>
               Inr (RecentFire (series_get df fire ''acq_date'') (series_get df fire ''acq_time'')
                      lat lon)))"

fun print_fires :: "table \<Rightarrow> row list \<Rightarrow> error + line list" where
  "print_fires df [] = Inr []"
| "print_fires df (fire # fires) =
     (case print_fire df fire of
        Inl e \<Rightarrow> Inl e
      | Inr l \<Rightarrow> (case print_fires df fires of Inl e \<Rightarrow> Inl e | Inr ls \<Rightarrow> Inr (l # ls)))"

definition nlargest :: "argsort \<Rightarrow> nat \<Rightarrow> string \<Rightarrow> table \<Rightarrow> error + table" where
  \<comment> \<open>\<^verbatim>\<open>df.nlargest(n, c)\<close>: refused on a column of object dtype, whatever its rows;
      otherwise the first n rows of the table in descending order of c\<close>
  "nlargest argsort n c df =
     (if object_dtype df c then Inl TypeError
      else Inr (head n (sort_values_desc argsort df c)))"

definition recent_section :: "argsort \<Rightarrow> table \<Rightarrow> error + line list" where
  "recent_section argsort df =
     (if ''acq_time'' \<in> set (columns df) then
        (case (if ''acq_time'' \<in> set (columns df) then nlargest argsort 5 ''acq_time'' df
               else Inr (head 5 df)) of
           Inl e \<Rightarrow> Inl e
         | Inr recent_fires \<Rightarrow>
             (case print_fires df (rows recent_fires) of
                Inl e \<Rightarrow> Inl e
              | Inr ls \<Rightarrow> Inr (RecentHeader # ls)))
      else Inr [])"

definition analyze_fire_data :: "argsort \<Rightarrow> table \<Rightarrow> error + line list" where
  "analyze_fire_data argsort df =
     (case confidence_section df of
        Inl e \<Rightarrow> Inl e
      | Inr conf \<Rightarrow>
          (case lat_lon_section df of
             Inl e \<Rightarrow> Inl e
           | Inr latlon \<Rightarrow>
               (case recent_section argsort df of
                  Inl e \<Rightarrow> Inl e
                | Inr recent \<Rightarrow>
                    Inr ([Banner, Total (length (rows df))] @ conf @ latlon @ daily_section df @ recent))))"

section \<open>Top level\<close>

text \<open>
  \<^verbatim>\<open>main\<close> runs the four stages inside one \<^verbatim>\<open>try\<close>; its \<^verbatim>\<open>except Exception\<close> turns every
  exception into the result \<^verbatim>\<open>(None, None, None)\<close>. The file system is threaded through.
\<close>

definition main ::
  "(string \<Rightarrow> error + table) \<Rightarrow> date \<Rightarrow> (filesystem \<Rightarrow> string)
     \<Rightarrow> (string \<Rightarrow> filesystem \<Rightarrow> error + 'd) \<Rightarrow> argsort \<Rightarrow> filesystem
     \<Rightarrow> (table option \<times> 'd option \<times> (string \<times> string) list option) \<times> filesystem" where
  "main http today tmp_name from_source argsort fs =
     (case get_latest_fire_data http today of
        Inl e \<Rightarrow> ((None, None, None), fs)
      | Inr (df, source_name) \<Rightarrow>
          (case process_fire_data_with_earthkit tmp_name from_source df source_name fs of
             (Inl e, fs1) \<Rightarrow> ((None, None, None), fs1)
           | (Inr (earthkit_data, processed_df), fs1) \<Rightarrow>
               (case analyze_fire_data argsort processed_df of
                  Inl e \<Rightarrow> ((None, None, None), fs1)
                | Inr printed \<Rightarrow>
                    (case save_fire_data argsort processed_df source_name ''fire_data'' fs1 of
                       (saved_files, fs2) \<Rightarrow>
                         ((Some processed_df, Some earthkit_data, Some saved_files), fs2)))))"

section \<open>Example inputs\<close>

definition ex_today :: date where
  "ex_today = \<lparr>year = 2026, month = 11, day = 3\<rparr>"

definition ex_response :: table where
  "ex_response = \<lparr>columns = [''acq_date'', ''frp''],
     rows = [[Str ''2026-11-02'', Num 1], [Str ''2026-11-03'', Num 2],
             [Str ''2026-11-02'', Num 3], [Str ''2026-11-03'', Num 4]],
     dtypes = [Object, Numeric]\<rparr>"

definition ex_http :: "string \<Rightarrow> error + table" where
  \<comment> \<open>the first endpoint answers, the others fail\<close>
  "ex_http url =
     (if url = build_url ''modis-c6.1'' then Inr ex_response else Inl (Exception ''404''))"

definition ex_ties :: table where
  \<comment> \<open>two detections of equal intensity\<close>
  "ex_ties = \<lparr>columns = [''latitude'', ''frp''], rows = [[Num 1, Num 5], [Num 2, Num 5]],
     dtypes = [Numeric, Numeric]\<rparr>"

definition ex_frp :: table where
  "ex_frp = \<lparr>columns = [''frp''], rows = [[Num 3.2], [Num 10.5], [Num 1.0]],
     dtypes = [Numeric]\<rparr>"

definition ex_fs :: filesystem where
  \<comment> \<open>an output directory that holds two earlier snapshots and another file\<close>
  "ex_fs = [''fire_data/fire_snapshot_old.csv'' \<mapsto> Other ''old'',
            ''fire_data/notes.txt'' \<mapsto> Other ''notes'',
            ''fire_data/fire_snapshot.csv'' \<mapsto> Other ''previous'']"

definition ex_no_frp :: table where
  "ex_no_frp = \<lparr>columns = [''latitude'', ''acq_time''],
     rows = [[Num 2, Num 1200], [Num 1, Num 1300], [Num 3, Num 1100]],
     dtypes = [Numeric, Numeric]\<rparr>"

definition ex_tomorrow :: date where
  "ex_tomorrow = \<lparr>year = 2026, month = 11, day = 4\<rparr>"

definition ex_http_stale :: "string \<Rightarrow> error + table" where
  \<comment> \<open>the first endpoint answers with a header only, the others with yesterday's rows\<close>
  "ex_http_stale url =
     (if url = build_url ''modis-c6.1'' then Inr \<lparr>columns = [''acq_date'', ''frp''], rows = [],
     dtypes = [Object, Object]\<rparr>
      else Inr ex_response)"

definition ex_tmp_name :: "filesystem \<Rightarrow> string" where
  "ex_tmp_name fs = ''/tmp/tmpk3v9x2.csv''"

definition ex_loader_ok :: "string \<Rightarrow> filesystem \<Rightarrow> error + nat" where
  \<comment> \<open>a loader that reads the file and returns its number of records as the handle\<close>
  "ex_loader_ok p fs =
     (case fs p of Some (Csv df) \<Rightarrow> Inr (length (rows df)) | _ \<Rightarrow> Inl (Exception ''unreadable''))"

definition ex_loader_fails :: "string \<Rightarrow> filesystem \<Rightarrow> error + nat" where
  "ex_loader_fails p fs = Inl (Exception ''unsupported'')"

definition ex_time_only :: table where
  "ex_time_only = \<lparr>columns = [''acq_time''], rows = [[Num 1200]],
     dtypes = [Numeric]\<rparr>"

definition ex_no_time :: table where
  "ex_no_time = \<lparr>columns = [''latitude'', ''longitude''], rows = [[Num 1, Num 2], [Num 3, Num 4]],
     dtypes = [Numeric, Numeric]\<rparr>"

definition ex_times :: table where
  "ex_times = \<lparr>columns = [''acq_time'', ''latitude'', ''longitude''],
     rows = [[Num 100, Num 1, Num 10], [Num 600, Num 2, Num 20], [Num 300, Num 3, Num 30],
             [Num 500, Num 4, Num 40], [Num 200, Num 5, Num 50], [Num 400, Num 6, Num 60]],
     dtypes = [Numeric, Numeric, Numeric]\<rparr>"

definition ex_fs_wildcard :: filesystem where
  \<comment> \<open>an earlier snapshot in an output directory named \<^verbatim>\<open>fire[1]\<close>\<close>
  "ex_fs_wildcard = [''fire[1]/fire_snapshot_old.csv'' \<mapsto> Other ''old'']"

section \<open>Properties of the fetcher\<close>

lemma filter_zip_map: "map fst (filter snd (zip xs (map P xs))) = filter P xs"
  by (induction xs) auto

lemma rows_filter_today:
  "rows (filter_today s df) = filter (\<lambda>r. get_cell df r ''acq_date'' = Some (Str s)) (rows df)"
proof -
  have "(\<lambda>r. (case get_cell df r ''acq_date'' of Some v \<Rightarrow> v | None \<Rightarrow> NaN) = Str s)
      = (\<lambda>r. get_cell df r ''acq_date'' = Some (Str s))"
    by (auto split: option.splits)
  then show ?thesis
    by (simp add: filter_today_def boolean_index_def column_def o_def filter_zip_map)
qed

lemma columns_filter_today: "columns (filter_today s df) = columns df"
  by (simp add: filter_today_def boolean_index_def)

lemma try_sources_Inr:
  "try_sources http s srcs = Inr (d, n) \<Longrightarrow>
   \<exists>p df. (n, p) \<in> set srcs \<and> http (build_url p) = Inr df \<and> d = filter_today s df"
proof (induction srcs)
  case Nil
  then show ?case by simp
next
  case (Cons a srcs)
  obtain sn sp where a: "a = (sn, sp)" by (cases a)
  show ?case using Cons unfolding a
    by (auto simp: Let_def split: sum.splits if_splits)
qed

lemma strftime_ex_today: "strftime_ymd ex_today = ''2026-11-03''"
  by (simp add: strftime_ymd_def digit_def ex_today_def)

lemma filter_today_ex_response:
  "filter_today ''2026-11-03'' ex_response =
     \<lparr>columns = [''acq_date'', ''frp''],
      rows = [[Str ''2026-11-03'', Num 2], [Str ''2026-11-03'', Num 4]],
     dtypes = [Object, Numeric]\<rparr>"
  by (simp add: filter_today_def boolean_index_def column_def get_cell_def ex_response_def)

lemma get_latest_ex:
  "get_latest_fire_data ex_http ex_today = Inr (filter_today ''2026-11-03'' ex_response, ''modis'')"
  by (simp add: get_latest_fire_data_def sources_def ex_http_def strftime_ex_today
        filter_today_ex_response empty_def Let_def)
     (simp add: ex_response_def)

text \<open>
  C1. Whatever table a source returns, the filtering step keeps exactly the rows whose
  \<^verbatim>\<open>acq_date\<close> cell is the string of today's date in the form YYYY-MM-DD, in the order
  of the response; and a table the fetcher returns is the table of one configured
  source filtered in this way, with its columns unchanged.
\<close>

theorem fetcher_keeps_todays_rows_in_order:
  "rows (filter_today (strftime_ymd today) df) =
     filter (\<lambda>r. get_cell df r ''acq_date'' = Some (Str (strftime_ymd today))) (rows df)
   \<and> (get_latest_fire_data http today = Inr (df_today, source_name) \<longrightarrow>
        (\<exists>source_path response.
            (source_name, source_path) \<in> set sources
          \<and> http (build_url source_path) = Inr response
          \<and> columns df_today = columns response
          \<and> rows df_today =
              filter (\<lambda>r. get_cell response r ''acq_date'' = Some (Str (strftime_ymd today)))
                (rows response)))"
proof (intro conjI impI)
  show "rows (filter_today (strftime_ymd today) df) =
     filter (\<lambda>r. get_cell df r ''acq_date'' = Some (Str (strftime_ymd today))) (rows df)"
    by (rule rows_filter_today)
next
  assume "get_latest_fire_data http today = Inr (df_today, source_name)"
  then obtain p response where
    "(source_name, p) \<in> set sources" "http (build_url p) = Inr response"
    "df_today = filter_today (strftime_ymd today) response"
    unfolding get_latest_fire_data_def by (blast dest: try_sources_Inr)
  then show "\<exists>source_path response.
            (source_name, source_path) \<in> set sources
          \<and> http (build_url source_path) = Inr response
          \<and> columns df_today = columns response
          \<and> rows df_today =
              filter (\<lambda>r. get_cell response r ''acq_date'' = Some (Str (strftime_ymd today)))
                (rows response)"
    using rows_filter_today columns_filter_today by blast
qed

theorem fetcher_keeps_todays_rows_in_order_witness:
  "get_latest_fire_data ex_http ex_today = Inr (filter_today ''2026-11-03'' ex_response, ''modis'')
   \<and> rows (filter_today ''2026-11-03'' ex_response) =
       [[Str ''2026-11-03'', Num 2], [Str ''2026-11-03'', Num 4]]
   \<and> (\<exists>source_path response.
            (''modis'', source_path) \<in> set sources
          \<and> ex_http (build_url source_path) = Inr response
          \<and> columns (filter_today ''2026-11-03'' ex_response) = columns response
          \<and> rows (filter_today ''2026-11-03'' ex_response) =
              filter (\<lambda>r. get_cell response r ''acq_date'' = Some (Str ''2026-11-03''))
                (rows response))"
proof -
  note T = fetcher_keeps_todays_rows_in_order
          [of ex_today ex_response ex_http "filter_today ''2026-11-03'' ex_response" "''modis''",
           unfolded strftime_ex_today]
  from T get_latest_ex have
    "\<exists>source_path response.
            (''modis'', source_path) \<in> set sources
          \<and> ex_http (build_url source_path) = Inr response
          \<and> columns (filter_today ''2026-11-03'' ex_response) = columns response
          \<and> rows (filter_today ''2026-11-03'' ex_response) =
              filter (\<lambda>r. get_cell response r ''acq_date'' = Some (Str ''2026-11-03''))
                (rows response)"
    by blast
  moreover have "rows (filter_today ''2026-11-03'' ex_response) =
       [[Str ''2026-11-03'', Num 2], [Str ''2026-11-03'', Num 4]]"
    by (simp add: filter_today_ex_response)
  ultimately show ?thesis
    using get_latest_ex by blast
qed

text \<open>
  C7 as stated: any two configured sources get the same URL. The URL interpolates the
  source's path, so the first two sources already get different URLs.
\<close>

theorem build_url_differs_counterexample:
  "(''modis'', ''modis-c6.1'') \<in> set sources \<and> (''viirs'', ''viirs-snpp'') \<in> set sources
   \<and> build_url ''modis-c6.1'' \<noteq> build_url ''viirs-snpp''"
  by (simp add: sources_def build_url_def)

text \<open>
  C7, amended. The URL of a source is the base URL, the source's path and the fixed file
  name \<^verbatim>\<open>MODIS_C6_1_Global_24h.csv\<close>: two sources with different names get different
  URLs, which share only the base and the file name, and the three sources are three
  endpoints.
\<close>

theorem build_url_distinct_per_source:
  "(n1, p1) \<in> set sources \<and> (n2, p2) \<in> set sources \<and> n1 \<noteq> n2 \<longrightarrow>
     build_url p1 \<noteq> build_url p2
   \<and> build_url p1 = base_url @ ''/'' @ p1 @ ''/txt/MODIS_C6_1_Global_24h.csv''
   \<and> build_url p2 = base_url @ ''/'' @ p2 @ ''/txt/MODIS_C6_1_Global_24h.csv''
   \<and> distinct (map (\<lambda>(n, p). build_url p) sources)"
  by (auto simp: sources_def build_url_def)

theorem build_url_distinct_per_source_witness:
  "(''modis'', ''modis-c6.1'') \<in> set sources \<and> (''viirs_noaa20'', ''viirs-noaa20'') \<in> set sources
   \<and> ''modis'' \<noteq> ''viirs_noaa20''
   \<and> build_url ''modis-c6.1'' \<noteq> build_url ''viirs-noaa20''"
  using build_url_distinct_per_source [of "''modis''" "''modis-c6.1''" "''viirs_noaa20''" "''viirs-noaa20''"]
  by (simp add: sources_def)

section \<open>Properties of sorting\<close>

lemma mset_map_nth_perm:
  assumes "mset js = mset [0..<length xs]"
  shows "mset (map (\<lambda>j. xs ! j) js) = mset xs"
proof -
  have "mset (map (\<lambda>j. xs ! j) js) = image_mset (\<lambda>j. xs ! j) (mset js)" by simp
  also have "\<dots> = image_mset (\<lambda>j. xs ! j) (mset [0..<length xs])" using assms by simp
  also have "\<dots> = mset (map (\<lambda>j. xs ! j) [0..<length xs])" by simp
  also have "\<dots> = mset xs" by (simp add: map_nth)
  finally show ?thesis .
qed

lemma argsort_okD:
  "argsort_ok a \<Longrightarrow> mset (a ks) = mset [0..<length ks]"
  "argsort_ok a \<Longrightarrow> sorted (map (\<lambda>i. ks ! i) (a ks))"
  by (simp_all add: argsort_ok_def)

lemma argsort_ok_set: "argsort_ok a \<Longrightarrow> set (a ks) = {0..<length ks}"
  using argsort_okD(1)[of a ks] by (metis mset_eq_setD set_upt)

lemma mset_filter_partition:
  "mset (filter (\<lambda>x. \<not> P x) xs) + mset (filter P xs) = mset xs"
  by (induction xs) auto

lemma mset_nargsort_desc:
  assumes "argsort_ok a"
  shows "mset (nargsort_desc a items) = mset [0..<length items]"
proof -
  define nn where "nn = rev (filter (\<lambda>i. items ! i \<noteq> NaN) [0..<length items])"
  define ks where "ks = map (\<lambda>i. items ! i) nn"
  have "mset (a ks) = mset [0..<length nn]"
    using argsort_okD(1)[OF assms, of ks] by (simp add: ks_def)
  then have "mset (map (\<lambda>j. nn ! j) (a ks)) = mset nn"
    by (rule mset_map_nth_perm)
  then have "mset (nargsort_desc a items)
      = mset (filter (\<lambda>i. items ! i \<noteq> NaN) [0..<length items])
        + mset (filter (\<lambda>i. items ! i = NaN) [0..<length items])"
    by (simp add: nargsort_desc_def Let_def nn_def ks_def)
  also have "\<dots> = mset [0..<length items]"
    by (rule mset_filter_partition)
  finally show ?thesis .
qed

lemma sorted_nargsort_desc:
  assumes "argsort_ok a"
  shows "sorted (rev (map (\<lambda>i. items ! i) (nargsort_desc a items)))"
proof -
  define nn where "nn = rev (filter (\<lambda>i. items ! i \<noteq> NaN) [0..<length items])"
  define ks where "ks = map (\<lambda>i. items ! i) nn"
  define nans where "nans = filter (\<lambda>i. items ! i = NaN) [0..<length items]"
  have len: "length ks = length nn" by (simp add: ks_def)
  have rng: "\<forall>j \<in> set (a ks). j < length nn"
    using argsort_ok_set[OF assms, of ks] len by simp
  have "\<forall>j \<in> set (a ks). items ! (nn ! j) = ks ! j"
    using rng by (simp add: ks_def)
  then have E: "map (\<lambda>i. items ! i) (map (\<lambda>j. nn ! j) (a ks)) = map (\<lambda>j. ks ! j) (a ks)"
    unfolding map_map o_def by (intro map_cong) auto
  have s1: "sorted (map (\<lambda>i. items ! i) (map (\<lambda>j. nn ! j) (a ks)))"
    using argsort_okD(2)[OF assms, of ks] by (simp only: E)
  have s2: "\<forall>x \<in> set (map (\<lambda>i. items ! i) nans). x = NaN"
    by (auto simp: nans_def)
  have eq: "rev (map (\<lambda>i. items ! i) (nargsort_desc a items))
      = rev (map (\<lambda>i. items ! i) nans) @ map (\<lambda>i. items ! i) (map (\<lambda>j. nn ! j) (a ks))"
    by (simp add: nargsort_desc_def Let_def nn_def ks_def nans_def rev_map)
  have "sorted (rev (map (\<lambda>i. items ! i) nans))"
    using s2 by (induction nans) (auto simp: sorted_append)
  then show ?thesis
    unfolding eq using s1 s2 by (auto simp: sorted_append)
qed

lemma column_take_rows:
  assumes "\<forall>i \<in> set idx. i < length (rows df)"
  shows "column (take_rows df idx) c = map (\<lambda>i. column df c ! i) idx"
  using assms by (simp add: column_def take_rows_def get_cell_def)

lemma length_column[simp]: "length (column df c) = length (rows df)"
  by (simp add: column_def)

lemma nargsort_desc_range:
  assumes "argsort_ok a"
  shows "set (nargsort_desc a items) = {0..<length items}"
  using mset_nargsort_desc[OF assms, of items] by (metis mset_eq_setD set_upt)

lemma column_sort_values_desc:
  assumes "argsort_ok a"
  shows "column (sort_values_desc a df c) c = rev (sort (column df c))"
proof -
  let ?idx = "nargsort_desc a (column df c)"
  have rng: "\<forall>i \<in> set ?idx. i < length (rows df)"
    using nargsort_desc_range[OF assms, of "column df c"] by simp
  have col: "column (sort_values_desc a df c) c = map (\<lambda>i. column df c ! i) ?idx"
    unfolding sort_values_desc_def by (rule column_take_rows[OF rng])
  have "mset (rev (map (\<lambda>i. column df c ! i) ?idx)) = mset (column df c)"
    using mset_map_nth_perm[of ?idx "column df c"] mset_nargsort_desc[OF assms, of "column df c"]
    by simp
  moreover have "sorted (rev (map (\<lambda>i. column df c ! i) ?idx))"
    by (rule sorted_nargsort_desc[OF assms])
  ultimately have "sort (column df c) = rev (map (\<lambda>i. column df c ! i) ?idx)"
    by (metis properties_for_sort)
  then show ?thesis using col by simp
qed

lemma mset_rows_sort_values_desc:
  assumes "argsort_ok a"
  shows "mset (rows (sort_values_desc a df c)) = mset (rows df)"
  using mset_map_nth_perm[of "nargsort_desc a (column df c)" "rows df"]
        mset_nargsort_desc[OF assms, of "column df c"]
  by (simp add: sort_values_desc_def take_rows_def)

lemma columns_sort_values_desc: "columns (sort_values_desc a df c) = columns df"
  by (simp add: sort_values_desc_def take_rows_def)

lemma argsort_stable_ok: "argsort_ok argsort_stable"
  by (simp add: argsort_ok_def argsort_stable_def)

lemma argsort_ties_reversed_ok: "argsort_ok argsort_ties_reversed"
  by (simp add: argsort_ok_def argsort_ties_reversed_def)

section \<open>Properties of the writer\<close>

lemma path_join_rel:
  "b \<noteq> [] \<Longrightarrow> hd b \<noteq> CHR ''/'' \<Longrightarrow> path_join a b = path_join a [] @ b"
  by (simp add: path_join_def)

lemma path_join_fire_data: "path_join ''fire_data'' ''fire_snapshot.csv'' = ''fire_data/fire_snapshot.csv''"
  by (simp add: path_join_def)

lemma save_written:
  "snd (save_fire_data a df s d fs) (path_join d ''fire_snapshot.csv'')
     = Some (Csv (if ''frp'' \<in> set (columns df) then sort_values_desc a df ''frp'' else df))"
  by (simp add: save_fire_data_def Let_def)

lemma save_other:
  "p \<noteq> path_join d ''fire_snapshot.csv'' \<Longrightarrow>
   snd (save_fire_data a df s d fs) p = (if glob_match d p then None else fs p)"
  by (simp add: save_fire_data_def Let_def restrict_map_def)

text \<open>
  For an output directory whose name is not empty and has no wildcard character and no
  slash at its end, such as \<^verbatim>\<open>fire_data\<close>, the paths that \<^verbatim>\<open>glob\<close> returns are the files of that directory whose name matches,
  and after a run of the writer \<^verbatim>\<open>fire_snapshot.csv\<close> is the only one of them.
\<close>

lemma rstrip_sep_plain:
  "d \<noteq> [] \<Longrightarrow> last d \<noteq> CHR ''/'' \<Longrightarrow> rstrip_sep (d @ ''/'') = d"
proof -
  assume ne: "d \<noteq> []" and l: "last d \<noteq> CHR ''/''"
  have "last d \<in> set d" using ne by simp
  then have "\<not> set (d @ ''/'') \<subseteq> {CHR ''/''}" using l by auto
  moreover have "dropWhile (\<lambda>c. c = CHR ''/'') (rev d) = rev d"
    using ne l by (cases "rev d") (auto simp: last_rev hd_rev[symmetric] dest: arg_cong[where f=rev])
  ultimately show ?thesis by (simp add: rstrip_sep_def)
qed

lemma glob_dirname_plain:
  assumes "d \<noteq> []" "last d \<noteq> CHR ''/''"
  shows "path_join (rstrip_sep (path_join d [])) [] = path_join d []"
    and "has_magic (rstrip_sep (path_join d [])) = has_magic d"
proof -
  have "path_join d [] = d @ ''/''" using assms by (simp add: path_join_def)
  then have "rstrip_sep (path_join d []) = d"
    using assms rstrip_sep_plain[of d] by simp
  then show "path_join (rstrip_sep (path_join d [])) [] = path_join d []"
    and "has_magic (rstrip_sep (path_join d [])) = has_magic d"
    by simp_all
qed

lemma glob_match_plain:
  assumes "\<not> has_magic d" "d \<noteq> []" "last d \<noteq> CHR ''/''"
  shows "glob_match d p \<longleftrightarrow>
           take (length (path_join d [])) p = path_join d []
           \<and> CHR ''/'' \<notin> set (drop (length (path_join d [])) p)
           \<and> fnmatch_snapshot (drop (length (path_join d [])) p)"
  using assms by (simp add: glob_match_def Let_def glob_dirname_plain)

lemma glob_match_csv_file:
  assumes "\<not> has_magic d" "d \<noteq> []" "last d \<noteq> CHR ''/''"
  shows "glob_match d (path_join d ''fire_snapshot.csv'')"
  by (simp add: glob_match_plain[OF assms] path_join_rel[of "''fire_snapshot.csv''"] fnmatch_snapshot_def)

lemma save_matches_plain:
  assumes "\<not> has_magic d" "d \<noteq> []" "last d \<noteq> CHR ''/''"
  shows "{p \<in> dom (snd (save_fire_data a df s d fs)). glob_match d p} = {path_join d ''fire_snapshot.csv''}"
proof -
  have "p \<in> dom (snd (save_fire_data a df s d fs)) \<and> glob_match d p
          \<longleftrightarrow> p = path_join d ''fire_snapshot.csv''" for p
  proof (cases "p = path_join d ''fire_snapshot.csv''")
    case True
    then show ?thesis using glob_match_csv_file[OF assms] save_written[of a df s d fs] by auto
  next
    case False
    then show ?thesis using save_other[OF False, of a df s fs] by (auto simp: dom_def)
  qed
  then show ?thesis by blast
qed

lemma sort_example: "rev (sort [Num 3.2, Num 10.5, Num 1.0]) = [Num 10.5, Num 3.2, Num 1.0]"
  by simp

text \<open>
  The sorting branch, for every sort that meets numpy's promise: the written table has
  the columns and (up to order) the rows of the input, and its \<^verbatim>\<open>frp\<close> column descends,
  the missing values last; a table whose \<^verbatim>\<open>frp\<close> column reads 3.2, 10.5, 1.0 is written
  in the order 10.5, 3.2, 1.0. The order of rows with equal \<^verbatim>\<open>frp\<close> is left open here.
\<close>

lemma writer_sorts_descending:
  "argsort_ok argsort \<and> ''frp'' \<in> set (columns df) \<longrightarrow>
     (\<exists>out. snd (save_fire_data argsort df source_name output_dir fs)
               (path_join output_dir ''fire_snapshot.csv'') = Some (Csv out)
         \<and> columns out = columns df
         \<and> mset (rows out) = mset (rows df)
         \<and> column out ''frp'' = rev (sort (column df ''frp''))
         \<and> (column df ''frp'' = [Num 3.2, Num 10.5, Num 1.0] \<longrightarrow>
               column out ''frp'' = [Num 10.5, Num 3.2, Num 1.0]))"
proof (intro impI, elim conjE)
  assume ok: "argsort_ok argsort" and frp: "''frp'' \<in> set (columns df)"
  let ?out = "sort_values_desc argsort df ''frp''"
  have "snd (save_fire_data argsort df source_name output_dir fs)
               (path_join output_dir ''fire_snapshot.csv'') = Some (Csv ?out)"
    using frp by (simp add: save_written)
  moreover have "columns ?out = columns df" by (rule columns_sort_values_desc)
  moreover have "mset (rows ?out) = mset (rows df)" by (rule mset_rows_sort_values_desc[OF ok])
  moreover have c: "column ?out ''frp'' = rev (sort (column df ''frp''))"
    by (rule column_sort_values_desc[OF ok])
  moreover have "column df ''frp'' = [Num 3.2, Num 10.5, Num 1.0] \<longrightarrow>
               column ?out ''frp'' = [Num 10.5, Num 3.2, Num 1.0]"
    using c sort_example by simp
  ultimately show "\<exists>out. snd (save_fire_data argsort df source_name output_dir fs)
               (path_join output_dir ''fire_snapshot.csv'') = Some (Csv out)
         \<and> columns out = columns df
         \<and> mset (rows out) = mset (rows df)
         \<and> column out ''frp'' = rev (sort (column df ''frp''))
         \<and> (column df ''frp'' = [Num 3.2, Num 10.5, Num 1.0] \<longrightarrow>
               column out ''frp'' = [Num 10.5, Num 3.2, Num 1.0])"
    by blast
qed

text \<open>
  numpy's promise does not fix the order of equal keys. With the stable kind two rows of
  equal intensity are written in their input order; with a sort that lists equal keys
  from the last to the first they would be written in the opposite order. Both sorts
  meet the promise; which order the default kind gives on a machine is a matter of
  numpy's sorting code and is not decided by this theory.
\<close>

lemma column_ex_ties: "column ex_ties ''frp'' = [Num 5, Num 5]"
  by (simp add: column_def get_cell_def ex_ties_def)

lemma order_of_ties_depends_on_argsort:
  "argsort_ok argsort_stable \<and> argsort_ok argsort_ties_reversed
   \<and> rows (sort_values_desc argsort_stable ex_ties ''frp'') = [[Num 1, Num 5], [Num 2, Num 5]]
   \<and> rows (sort_values_desc argsort_ties_reversed ex_ties ''frp'') = [[Num 2, Num 5], [Num 1, Num 5]]"
proof -
  have "nargsort_desc argsort_stable [Num 5, Num 5] = [0, 1]"
    by (simp add: nargsort_desc_def argsort_stable_def Let_def)
  moreover have "nargsort_desc argsort_ties_reversed [Num 5, Num 5] = [1, 0]"
    by (simp add: nargsort_desc_def argsort_ties_reversed_def Let_def upt_rec)
  ultimately show ?thesis
    by (simp add: argsort_stable_ok argsort_ties_reversed_ok sort_values_desc_def column_ex_ties)
       (simp add: take_rows_def ex_ties_def)
qed

text \<open>
  C9. For a table without an \<^verbatim>\<open>frp\<close> column the written table is the input table:
  same columns, same rows, same order.
\<close>

theorem writer_keeps_order_without_frp:
  "''frp'' \<notin> set (columns df) \<longrightarrow>
     snd (save_fire_data argsort df source_name output_dir fs)
       (path_join output_dir ''fire_snapshot.csv'') = Some (Csv df)"
  by (simp add: save_written)

theorem writer_keeps_order_without_frp_witness:
  "''frp'' \<notin> set (columns ex_no_frp)
   \<and> snd (save_fire_data argsort_stable ex_no_frp ''modis'' ''fire_data'' ex_fs)
         ''fire_data/fire_snapshot.csv''
       = Some (Csv \<lparr>columns = [''latitude'', ''acq_time''],
                      rows = [[Num 2, Num 1200], [Num 1, Num 1300], [Num 3, Num 1100]],
                      dtypes = [Numeric, Numeric]\<rparr>)"
  using writer_keeps_order_without_frp [of ex_no_frp argsort_stable "''modis''" "''fire_data''" ex_fs]
  by (simp add: path_join_fire_data ex_no_frp_def)

text \<open>
  C10. For every table, the rows written are the rows of the input up to order (as
  multisets of whole rows, so no row is added, dropped or changed), under the same
  column names.
\<close>

theorem writer_permutes_rows:
  "argsort_ok argsort \<longrightarrow>
     (\<exists>out. snd (save_fire_data argsort df source_name output_dir fs)
               (path_join output_dir ''fire_snapshot.csv'') = Some (Csv out)
         \<and> columns out = columns df
         \<and> mset (rows out) = mset (rows df))"
  by (simp add: save_written columns_sort_values_desc mset_rows_sort_values_desc)

theorem writer_permutes_rows_witness:
  "argsort_ok argsort_stable
   \<and> (\<exists>out. snd (save_fire_data argsort_stable ex_frp ''modis'' ''fire_data'' ex_fs)
               ''fire_data/fire_snapshot.csv'' = Some (Csv out)
         \<and> columns out = [''frp'']
         \<and> mset (rows out) = {#[Num 3.2], [Num 10.5], [Num 1.0]#})"
  using writer_permutes_rows [of argsort_stable ex_frp "''modis''" "''fire_data''" ex_fs]
        argsort_stable_ok
  by (simp add: path_join_fire_data ex_frp_def)

lemma glob_wild_old: "\<not> glob_match ''fire[1]'' ''fire[1]/fire_snapshot_old.csv''"
  by (simp add: glob_match_def path_join_def rstrip_sep_def has_magic_def Let_def
        comp_match_def fnmatch_def bracket_end_def in_set_def)

lemma path_join_wild: "path_join ''fire[1]'' ''fire_snapshot.csv'' = ''fire[1]/fire_snapshot.csv''"
  by (simp add: path_join_def)

text \<open>
  C8 says that after any run of the writer the output directory holds exactly one file
  that matches \<^verbatim>\<open>fire_snapshot*.csv\<close>. The writer clears the earlier files with
  \<^verbatim>\<open>glob.glob(os.path.join(output_dir, "fire_snapshot*.csv"))\<close>, and \<^verbatim>\<open>glob\<close> reads the
  directory name as a pattern too: for the directory \<^verbatim>\<open>fire[1]\<close> the pattern names the
  directory \<^verbatim>\<open>fire1\<close>, the earlier snapshot in \<^verbatim>\<open>fire[1]\<close> is not found, and after
  the run the directory holds two matching files.
\<close>

theorem writer_keeps_old_snapshot_in_wildcard_directory:
  "ex_fs_wildcard ''fire[1]/fire_snapshot_old.csv'' = Some (Other ''old'')
   \<and> snd (save_fire_data argsort_stable ex_no_frp ''modis'' ''fire[1]'' ex_fs_wildcard)
         ''fire[1]/fire_snapshot_old.csv'' = Some (Other ''old'')
   \<and> snd (save_fire_data argsort_stable ex_no_frp ''modis'' ''fire[1]'' ex_fs_wildcard)
         ''fire[1]/fire_snapshot.csv'' = Some (Csv ex_no_frp)
   \<and> fnmatch_snapshot ''fire_snapshot_old.csv'' \<and> fnmatch_snapshot ''fire_snapshot.csv''"
  using glob_wild_old
  by (simp add: save_fire_data_def Let_def path_join_wild restrict_map_def ex_fs_wildcard_def
        fnmatch_snapshot_def ex_no_frp_def)

section \<open>Properties of the loader and of the top level\<close>

text \<open>
  C4. Whatever the table, the temporary file that the loader step creates is gone when the
  step returns: when the external loader returns a handle, the step returns it with the
  table, and when the external loader raises, the step raises the same exception. No
  other file is touched.
\<close>

theorem loader_removes_temporary_file:
  "tmp_name fs \<notin> dom (snd (process_fire_data_with_earthkit tmp_name from_source df source_name fs))
   \<and> (from_source (tmp_name fs) (fs(tmp_name fs \<mapsto> Csv df)) = Inr data \<longrightarrow>
        fst (process_fire_data_with_earthkit tmp_name from_source df source_name fs) = Inr (data, df))
   \<and> (from_source (tmp_name fs) (fs(tmp_name fs \<mapsto> Csv df)) = Inl e \<longrightarrow>
        fst (process_fire_data_with_earthkit tmp_name from_source df source_name fs) = Inl e)
   \<and> (\<forall>p. p \<noteq> tmp_name fs \<longrightarrow>
        snd (process_fire_data_with_earthkit tmp_name from_source df source_name fs) p = fs p)"
  by (simp add: process_fire_data_with_earthkit_def Let_def split: sum.splits)

theorem loader_removes_temporary_file_witness:
  "ex_loader_fails (ex_tmp_name ex_fs) (ex_fs(ex_tmp_name ex_fs \<mapsto> Csv ex_frp)) = Inl (Exception ''unsupported'')
   \<and> fst (process_fire_data_with_earthkit ex_tmp_name ex_loader_fails ex_frp ''modis'' ex_fs)
        = Inl (Exception ''unsupported'')
   \<and> ex_tmp_name ex_fs \<notin> dom (snd (process_fire_data_with_earthkit ex_tmp_name ex_loader_fails ex_frp ''modis'' ex_fs))
   \<and> ex_loader_ok (ex_tmp_name ex_fs) (ex_fs(ex_tmp_name ex_fs \<mapsto> Csv ex_frp)) = Inr 3
   \<and> fst (process_fire_data_with_earthkit ex_tmp_name ex_loader_ok ex_frp ''modis'' ex_fs) = Inr (3, ex_frp)
   \<and> ex_tmp_name ex_fs \<notin> dom (snd (process_fire_data_with_earthkit ex_tmp_name ex_loader_ok ex_frp ''modis'' ex_fs))"
proof -
  have f: "ex_loader_fails (ex_tmp_name ex_fs) (ex_fs(ex_tmp_name ex_fs \<mapsto> Csv ex_frp)) = Inl (Exception ''unsupported'')"
    by (simp add: ex_loader_fails_def)
  have s: "ex_loader_ok (ex_tmp_name ex_fs) (ex_fs(ex_tmp_name ex_fs \<mapsto> Csv ex_frp)) = Inr 3"
    by (simp add: ex_loader_ok_def ex_frp_def)
  show ?thesis
    using loader_removes_temporary_file [of ex_tmp_name ex_fs ex_loader_fails ex_frp "''modis''" 0 "Exception ''unsupported''"]
          loader_removes_temporary_file [of ex_tmp_name ex_fs ex_loader_ok ex_frp "''modis''" 3 "Exception ''unsupported''"]
          f s
    by simp
qed

lemma empty_filter_today:
  "filter (\<lambda>r. get_cell df r ''acq_date'' = Some (Str s)) (rows df) = [] \<Longrightarrow> empty (filter_today s df)"
  by (simp add: empty_def rows_filter_today)

lemma try_sources_exhausted:
  assumes "\<forall>(source_name, source_path) \<in> set srcs.
             \<exists>df. http (build_url source_path) = Inr df
               \<and> (empty df \<or> filter (\<lambda>r. get_cell df r ''acq_date'' = Some (Str s)) (rows df) = [])"
  shows "try_sources http s srcs = Inl (Exception ''Failed to download fire data from all sources'')"
  using assms
proof (induction srcs)
  case Nil
  then show ?case by simp
next
  case (Cons a srcs)
  obtain sn sp where a: "a = (sn, sp)" by (cases a)
  from Cons.prems obtain df where df: "http (build_url sp) = Inr df"
     "empty df \<or> filter (\<lambda>r. get_cell df r ''acq_date'' = Some (Str s)) (rows df) = []"
    unfolding a by auto
  have rest: "try_sources http s srcs = Inl (Exception ''Failed to download fire data from all sources'')"
    using Cons by simp
  show ?case
    unfolding a using df rest by (auto simp: Let_def empty_filter_today)
qed

text \<open>
  C3. If every configured source answers with an empty table or with a table that has no
  row for today, the fetcher raises its final exception, the top level catches it and
  returns \<^verbatim>\<open>(None, None, None)\<close>, and the file system is as it was: no file is created
  or overwritten.
\<close>

theorem exhausted_sources_return_none:
  "(\<forall>(source_name, source_path) \<in> set sources.
       \<exists>df. http (build_url source_path) = Inr df
         \<and> (empty df
              \<or> filter (\<lambda>r. get_cell df r ''acq_date'' = Some (Str (strftime_ymd today))) (rows df) = []))
   \<longrightarrow> get_latest_fire_data http today
         = Inl (Exception ''Failed to download fire data from all sources'')
     \<and> main http today tmp_name from_source argsort fs = ((None, None, None), fs)"
proof
  assume "\<forall>(source_name, source_path) \<in> set sources.
       \<exists>df. http (build_url source_path) = Inr df
         \<and> (empty df
              \<or> filter (\<lambda>r. get_cell df r ''acq_date'' = Some (Str (strftime_ymd today))) (rows df) = [])"
  then have "get_latest_fire_data http today
         = Inl (Exception ''Failed to download fire data from all sources'')"
    unfolding get_latest_fire_data_def by (rule try_sources_exhausted)
  then show "get_latest_fire_data http today
         = Inl (Exception ''Failed to download fire data from all sources'')
     \<and> main http today tmp_name from_source argsort fs = ((None, None, None), fs)"
    by (simp add: main_def)
qed

lemma strftime_ex_tomorrow: "strftime_ymd ex_tomorrow = ''2026-11-04''"
  by (simp add: strftime_ymd_def digit_def ex_tomorrow_def)

lemma ex_http_stale_nothing:
  "\<forall>(source_name, source_path) \<in> set sources.
       \<exists>df. ex_http_stale (build_url source_path) = Inr df
         \<and> (empty df
              \<or> filter (\<lambda>r. get_cell df r ''acq_date'' = Some (Str ''2026-11-04'')) (rows df) = [])"
  by (simp add: sources_def ex_http_stale_def empty_def build_url_def ex_response_def get_cell_def)

theorem exhausted_sources_return_none_witness:
  "ex_http_stale (build_url ''modis-c6.1'') = Inr \<lparr>columns = [''acq_date'', ''frp''], rows = [],
     dtypes = [Object, Object]\<rparr>
   \<and> ex_http_stale (build_url ''viirs-snpp'') = Inr ex_response
   \<and> ex_http_stale (build_url ''viirs-noaa20'') = Inr ex_response
   \<and> filter (\<lambda>r. get_cell ex_response r ''acq_date'' = Some (Str ''2026-11-04''))
         (rows ex_response) = []
   \<and> get_latest_fire_data ex_http_stale ex_tomorrow
       = Inl (Exception ''Failed to download fire data from all sources'')
   \<and> main ex_http_stale ex_tomorrow ex_tmp_name ex_loader_ok argsort_stable ex_fs
       = ((None, None, None), ex_fs)"
proof -
  from exhausted_sources_return_none
          [of ex_http_stale ex_tomorrow ex_tmp_name ex_loader_ok argsort_stable ex_fs,
           unfolded strftime_ex_tomorrow]
       ex_http_stale_nothing
  have "get_latest_fire_data ex_http_stale ex_tomorrow
       = Inl (Exception ''Failed to download fire data from all sources'')
   \<and> main ex_http_stale ex_tomorrow ex_tmp_name ex_loader_ok argsort_stable ex_fs
       = ((None, None, None), ex_fs)"
    by blast
  then show ?thesis
    by (simp add: ex_http_stale_def build_url_def ex_response_def get_cell_def)
qed

section \<open>Properties of the analyzer\<close>

text \<open>
  C5 says that a table lacking some of the confidence, latitude/longitude, date and time
  columns is analysed without an error. A table with a time column and no latitude
  column is not: the loop over the recent fires formats \<^verbatim>\<open>fire.get('latitude', 'N/A')\<close>
  with \<^verbatim>\<open>:.2f\<close>, and the placeholder is a string.
\<close>

theorem analyzer_raises_without_latitude:
  "''confidence'' \<notin> set (columns ex_time_only) \<and> ''latitude'' \<notin> set (columns ex_time_only)
   \<and> ''longitude'' \<notin> set (columns ex_time_only) \<and> ''acq_date'' \<notin> set (columns ex_time_only)
   \<and> analyze_fire_data argsort_stable ex_time_only = Inl ValueError"
  by (simp add: analyze_fire_data_def confidence_section_def lat_lon_section_def recent_section_def
    nlargest_def object_dtype_def has_str_def column_def get_cell_def head_def sort_values_desc_def take_rows_def
    nargsort_desc_def argsort_stable_def print_fire_def series_get_def ex_time_only_def Let_def)

text \<open>
  C6 as stated: without a time column the first 5 rows are printed. The whole
  sub-analysis is guarded by \<^verbatim>\<open>if 'acq_time' in df.columns\<close>: for a table of two rows
  with no time column the analysis completes and prints no fire.
\<close>

theorem analyzer_prints_no_fire_without_time_counterexample:
  "''acq_time'' \<notin> set (columns ex_no_time)
   \<and> rows (head 5 ex_no_time) = [[Num 1, Num 2], [Num 3, Num 4]]
   \<and> analyze_fire_data argsort_stable ex_no_time
       = Inr [Banner, Total 2, LatRange (Some 1) (Some 3), LonRange (Some 2) (Some 4)]"
  by (simp add: analyze_fire_data_def confidence_section_def lat_lon_section_def recent_section_def
    daily_section_def head_def
    has_str_def column_def get_cell_def ex_no_time_def col_min_def col_max_def nums_def)

lemma print_fires_lines:
  "print_fires df fires = Inr ls \<Longrightarrow>
   list_all2 (\<lambda>fire l. \<exists>lat lon. l = RecentFire (series_get df fire ''acq_date'')
                                        (series_get df fire ''acq_time'') lat lon) fires ls"
proof (induction fires arbitrary: ls)
  case Nil
  then show ?case by simp
next
  case (Cons fire fires)
  then show ?case
    by (auto simp: print_fire_def split: sum.splits)
qed

lemma list_all2_rightD:
  "list_all2 P xs ys \<Longrightarrow> y \<in> set ys \<Longrightarrow> \<exists>x \<in> set xs. P x y"
  by (induction rule: list_all2_induct) auto

lemma series_get_missing:
  "c \<notin> set (columns df) \<Longrightarrow> series_get df fire c = Placeholder"
proof -
  assume "c \<notin> set (columns df)"
  then have "c \<notin> fst ` set (zip (columns df) fire)"
    by (auto dest: set_zip_leftD)
  then have "map_of (zip (columns df) fire) c = None"
    by (simp add: map_of_eq_None_iff)
  then show ?thesis by (simp add: series_get_def get_cell_def)
qed

lemma column_as_map:
  "columns df' = columns df \<Longrightarrow> column df' c = map (\<lambda>r. case get_cell df r c of Some v \<Rightarrow> v | None \<Rightarrow> NaN) (rows df')"
  by (simp add: column_def get_cell_def)

lemma sorted_desc_split:
  assumes "sorted (rev (map f xs))"
  shows "\<forall>x \<in> set (take n xs). \<forall>y \<in> set (drop n xs). f y \<le> f x"
proof -
  have "sorted_wrt (\<lambda>x y. f y \<le> f x) xs"
    using assms by (simp add: sorted_wrt_rev sorted_wrt_map flip: rev_map)
  then have "sorted_wrt (\<lambda>x y. f y \<le> f x) (take n xs @ drop n xs)" by simp
  then show ?thesis unfolding sorted_wrt_append by blast
qed

text \<open>
  C6, amended. Without a time column the sub-analysis prints nothing. With a time column,
  when the sub-analysis completes, it prints its header and one line for each of the
  first 5 rows of the table in descending order of time: these are 5 rows (all rows of a
  shorter table), no other row has a larger time, and each line shows the row's date
  field and time field, a missing date column as the placeholder.
\<close>

theorem recent_fires_are_largest_times:
  "argsort_ok argsort \<longrightarrow>
     (''acq_time'' \<notin> set (columns df) \<longrightarrow> recent_section argsort df = Inr [])
   \<and> (''acq_time'' \<in> set (columns df) \<and> recent_section argsort df = Inr ls \<longrightarrow>
        (\<exists>shown rest printed.
            mset (shown @ rest) = mset (rows df)
          \<and> length shown = min 5 (length (rows df))
          \<and> (\<forall>fire \<in> set shown. \<forall>other \<in> set rest.
                (case get_cell df other ''acq_time'' of Some v \<Rightarrow> v | None \<Rightarrow> NaN)
                  \<le> (case get_cell df fire ''acq_time'' of Some v \<Rightarrow> v | None \<Rightarrow> NaN))
          \<and> ls = RecentHeader # printed
          \<and> list_all2 (\<lambda>fire l. \<exists>lat lon. l = RecentFire (series_get df fire ''acq_date'')
                                        (series_get df fire ''acq_time'') lat lon) shown printed
          \<and> (''acq_date'' \<notin> set (columns df) \<longrightarrow>
                (\<forall>l \<in> set printed. \<exists>t lat lon. l = RecentFire Placeholder t lat lon))))"
proof (intro impI conjI; (elim conjE)?)
  assume "''acq_time'' \<notin> set (columns df)"
  then show "recent_section argsort df = Inr []" by (simp add: recent_section_def)
next
  assume ok: "argsort_ok argsort" and t: "''acq_time'' \<in> set (columns df)"
    and r: "recent_section argsort df = Inr ls"
  let ?S = "sort_values_desc argsort df ''acq_time''"
  let ?f = "\<lambda>r. case get_cell df r ''acq_time'' of Some v \<Rightarrow> v | None \<Rightarrow> NaN"
  from r t obtain printed where p: "print_fires df (take 5 (rows ?S)) = Inr printed"
    and ls: "ls = RecentHeader # printed"
    by (auto simp: recent_section_def nlargest_def head_def split: if_splits sum.splits)
  have m: "mset (rows ?S) = mset (rows df)" by (rule mset_rows_sort_values_desc[OF ok])
  then have len: "length (rows ?S) = length (rows df)" by (rule mset_eq_length)
  have "column ?S ''acq_time'' = map ?f (rows ?S)"
    by (rule column_as_map) (rule columns_sort_values_desc)
  then have "map ?f (rows ?S) = rev (sort (column df ''acq_time''))"
    using column_sort_values_desc[OF ok, of df "''acq_time''"] by simp
  then have "rev (map ?f (rows ?S)) = sort (column df ''acq_time'')"
    by (simp only: rev_rev_ident)
  then have "sorted (rev (map ?f (rows ?S)))"
    by (simp only: sorted_sort)
  then have ord: "\<forall>x \<in> set (take 5 (rows ?S)). \<forall>y \<in> set (drop 5 (rows ?S)). ?f y \<le> ?f x"
    by (rule sorted_desc_split)
  have l2: "list_all2 (\<lambda>fire l. \<exists>lat lon. l = RecentFire (series_get df fire ''acq_date'')
                                        (series_get df fire ''acq_time'') lat lon) (take 5 (rows ?S)) printed"
    using p by (rule print_fires_lines)
  have ph: "''acq_date'' \<notin> set (columns df) \<longrightarrow>
                (\<forall>l \<in> set printed. \<exists>t lat lon. l = RecentFire Placeholder t lat lon)"
  proof (intro impI ballI)
    fix l assume nd: "''acq_date'' \<notin> set (columns df)" and "l \<in> set printed"
    then obtain fire where "\<exists>lat lon. l = RecentFire (series_get df fire ''acq_date'')
                                        (series_get df fire ''acq_time'') lat lon"
      using list_all2_rightD[OF l2] by blast
    then show "\<exists>t lat lon. l = RecentFire Placeholder t lat lon"
      using series_get_missing[OF nd] by auto
  qed
  have "mset (take 5 (rows ?S) @ drop 5 (rows ?S)) = mset (rows df)" using m by simp
  moreover have "length (take 5 (rows ?S)) = min 5 (length (rows df))" using len by simp
  ultimately show "\<exists>shown rest printed.
            mset (shown @ rest) = mset (rows df)
          \<and> length shown = min 5 (length (rows df))
          \<and> (\<forall>fire \<in> set shown. \<forall>other \<in> set rest.
                (case get_cell df other ''acq_time'' of Some v \<Rightarrow> v | None \<Rightarrow> NaN)
                  \<le> (case get_cell df fire ''acq_time'' of Some v \<Rightarrow> v | None \<Rightarrow> NaN))
          \<and> ls = RecentHeader # printed
          \<and> list_all2 (\<lambda>fire l. \<exists>lat lon. l = RecentFire (series_get df fire ''acq_date'')
                                        (series_get df fire ''acq_time'') lat lon) shown printed
          \<and> (''acq_date'' \<notin> set (columns df) \<longrightarrow>
                (\<forall>l \<in> set printed. \<exists>t lat lon. l = RecentFire Placeholder t lat lon))"
    using ord ls l2 ph by blast
qed

lemma column_ex_times: "column ex_times ''acq_time'' = [Num 100, Num 600, Num 300, Num 500, Num 200, Num 400]"
  by (simp add: column_def get_cell_def ex_times_def)

lemma nargsort_ex_times:
  "nargsort_desc argsort_stable [Num 100, Num 600, Num 300, Num 500, Num 200, Num 400] = [1, 3, 5, 2, 4, 0]"
  by (simp add: nargsort_desc_def argsort_stable_def Let_def upt_rec)

lemma numeric_ex_times:
  "''acq_time'' \<in> set (columns ex_times)" "\<not> object_dtype ex_times ''acq_time''"
  by (simp_all add: object_dtype_def ex_times_def)

lemma recent_ex_times:
  "recent_section argsort_stable ex_times =
     Inr [RecentHeader,
          RecentFire Placeholder (Val (Num 600)) (Some 2) (Some 20),
          RecentFire Placeholder (Val (Num 500)) (Some 4) (Some 40),
          RecentFire Placeholder (Val (Num 400)) (Some 6) (Some 60),
          RecentFire Placeholder (Val (Num 300)) (Some 3) (Some 30),
          RecentFire Placeholder (Val (Num 200)) (Some 5) (Some 50)]"
  by (simp add: recent_section_def nlargest_def sort_values_desc_def column_ex_times
        nargsort_ex_times numeric_ex_times)
     (simp add: head_def take_rows_def ex_times_def print_fire_def series_get_def get_cell_def)

theorem recent_fires_are_largest_times_witness:
  "argsort_ok argsort_stable
   \<and> ''acq_time'' \<notin> set (columns ex_no_time)
   \<and> recent_section argsort_stable ex_no_time = Inr []
   \<and> ''acq_time'' \<in> set (columns ex_times)
   \<and> recent_section argsort_stable ex_times =
       Inr [RecentHeader,
          RecentFire Placeholder (Val (Num 600)) (Some 2) (Some 20),
          RecentFire Placeholder (Val (Num 500)) (Some 4) (Some 40),
          RecentFire Placeholder (Val (Num 400)) (Some 6) (Some 60),
          RecentFire Placeholder (Val (Num 300)) (Some 3) (Some 30),
          RecentFire Placeholder (Val (Num 200)) (Some 5) (Some 50)]
   \<and> (\<exists>shown rest. mset (shown @ rest) = mset (rows ex_times) \<and> length shown = 5)"
proof -
  have t: "''acq_time'' \<in> set (columns ex_times)" and n: "''acq_time'' \<notin> set (columns ex_no_time)"
    by (simp_all add: ex_times_def ex_no_time_def)
  have five: "min 5 (length (rows ex_times)) = 5" by (simp add: ex_times_def)
  from recent_fires_are_largest_times [of argsort_stable ex_no_time "[]"] argsort_stable_ok n
  have a: "recent_section argsort_stable ex_no_time = Inr []" by blast
  from recent_fires_are_largest_times [of argsort_stable ex_times] argsort_stable_ok t recent_ex_times
  have "\<exists>shown rest. mset (shown @ rest) = mset (rows ex_times)
          \<and> length shown = min 5 (length (rows ex_times))"
    by blast
  then have b: "\<exists>shown rest. mset (shown @ rest) = mset (rows ex_times) \<and> length shown = 5"
    unfolding five .
  show ?thesis using argsort_stable_ok n a t recent_ex_times b by blast
qed

text \<open>
  \<^verbatim>\<open>nlargest\<close> looks at the dtype of the time column, not at its rows: on a column of
  object dtype the sub-analysis raises, also for a table without rows.
\<close>

lemma recent_section_object_dtype:
  "''acq_time'' \<in> set (columns df) \<Longrightarrow> object_dtype df ''acq_time'' \<Longrightarrow>
   recent_section argsort df = Inl TypeError"
  by (simp add: recent_section_def nlargest_def)

end
